theory Spec2Isabelle
  imports Complex_Main
begin

section \<open>Numeric model of the numpy values used by models.py\<close>

text \<open>
  The program computes with numpy float64 scalars and arrays. Finite values are modelled
  as \<^typ>\<open>real\<close> with exact arithmetic (no rounding, no overflow). The exceptions
  numpy raises are values of \<open>py_error\<close>, and every function that can raise returns
  \<open>py_error + 'a\<close> with \<open>Inl\<close> the exception.
\<close>

datatype py_error = ValueError | IndexError | AxisError

text \<open>
  A float64 value is finite or it is one of \<open>inf\<close>, \<open>-inf\<close> and \<open>nan\<close>; \<open>NonFinite\<close>
  stands for any of these three. In IEEE arithmetic a sum, difference or product with a
  non-finite operand is non-finite (\<open>inf - inf\<close> and \<open>0 * inf\<close> are \<open>nan\<close>), and numpy
  raises nothing there.
\<close>

datatype float64 = Finite real | NonFinite

instantiation float64 :: "{monoid_add, minus, times}"
begin

definition zero_float64 :: float64 where
  "zero_float64 = Finite 0"

fun plus_float64 :: "float64 \<Rightarrow> float64 \<Rightarrow> float64" where
  "Finite x + Finite y = Finite (x + y)"
| "NonFinite + y = NonFinite"
| "x + NonFinite = NonFinite"

fun minus_float64 :: "float64 \<Rightarrow> float64 \<Rightarrow> float64" where
  "Finite x - Finite y = Finite (x - y)"
| "NonFinite - y = NonFinite"
| "x - NonFinite = NonFinite"

fun times_float64 :: "float64 \<Rightarrow> float64 \<Rightarrow> float64" where
  "Finite x * Finite y = Finite (x * y)"
| "NonFinite * y = NonFinite"
| "x * NonFinite = NonFinite"

instance
proof
  fix a b c :: float64
  show "a + b + c = a + (b + c)"
    by (cases a; cases b; cases c) simp_all
  show "0 + a = a"
    by (cases a) (simp_all add: zero_float64_def)
  show "a + 0 = a"
    by (cases a) (simp_all add: zero_float64_def)
qed

end

text \<open>
  An array of at most two dimensions: a 0-d scalar, a 1-d vector, or a 2-d matrix given
  by its number of columns and its rows (so that the shape \<open>(0, m)\<close> is kept).
\<close>

datatype 'a ndarray = Arr0 'a | Arr1 "'a list" | Arr2 nat "'a list list"

fun shape :: "'a ndarray \<Rightarrow> nat list" where
  "shape (Arr0 x) = []"
| "shape (Arr1 xs) = [length xs]"
| "shape (Arr2 m rows) = [length rows, m]"

fun wf_ndarray :: "'a ndarray \<Rightarrow> bool" where
  "wf_ndarray (Arr0 x) = True"
| "wf_ndarray (Arr1 xs) = True"
| "wf_ndarray (Arr2 m rows) = list_all (\<lambda>r. length r = m) rows"

text \<open>numpy's broadcasting rule for one axis: equal lengths, or one of them is 1.\<close>

definition bdim :: "nat \<Rightarrow> nat \<Rightarrow> nat option" where
  "bdim m k = (if m = k then Some m else if m = 1 then Some k else if k = 1 then Some m else None)"

text \<open>A binary operation along one axis whose lengths are broadcastable.\<close>

definition brow :: "('a \<Rightarrow> 'b \<Rightarrow> 'c) \<Rightarrow> 'a list \<Rightarrow> 'b list \<Rightarrow> 'c list" where
  "brow f xs ys =
     (if length xs = length ys then map2 f xs ys
      else if length xs = 1 then map (f (hd xs)) ys
      else map (\<lambda>x. f x (hd ys)) xs)"

text \<open>
  An elementwise binary operation on two arrays (\<open>p - d\<close>, \<open>np.multiply\<close>, \<open>S > cm\<close>,
  \<open>S / cm\<close>): shapes are aligned at the last axis and broadcast per axis; operands
  that cannot be broadcast together raise ValueError.
\<close>

fun np_binop :: "('a \<Rightarrow> 'b \<Rightarrow> 'c) \<Rightarrow> 'a ndarray \<Rightarrow> 'b ndarray \<Rightarrow> py_error + 'c ndarray" where
  "np_binop f (Arr0 x) (Arr0 y) = Inr (Arr0 (f x y))"
| "np_binop f (Arr0 x) (Arr1 ys) = Inr (Arr1 (map (f x) ys))"
| "np_binop f (Arr0 x) (Arr2 m rows) = Inr (Arr2 m (map (map (f x)) rows))"
| "np_binop f (Arr1 xs) (Arr0 y) = Inr (Arr1 (map (\<lambda>x. f x y) xs))"
| "np_binop f (Arr1 xs) (Arr1 ys) =
     (case bdim (length xs) (length ys) of
        None \<Rightarrow> Inl ValueError
      | Some k \<Rightarrow> Inr (Arr1 (brow f xs ys)))"
| "np_binop f (Arr1 xs) (Arr2 m rows) =
     (case bdim (length xs) m of
        None \<Rightarrow> Inl ValueError
      | Some k \<Rightarrow> Inr (Arr2 k (map (\<lambda>r. brow f xs r) rows)))"
| "np_binop f (Arr2 m rows) (Arr0 y) = Inr (Arr2 m (map (map (\<lambda>x. f x y)) rows))"
| "np_binop f (Arr2 m rows) (Arr1 ys) =
     (case bdim m (length ys) of
        None \<Rightarrow> Inl ValueError
      | Some k \<Rightarrow> Inr (Arr2 k (map (\<lambda>r. brow f r ys) rows)))"
| "np_binop f (Arr2 m rows) (Arr2 m' rows') =
     (case bdim (length rows) (length rows') of
        None \<Rightarrow> Inl ValueError
      | Some n \<Rightarrow>
          (case bdim m m' of
             None \<Rightarrow> Inl ValueError
           | Some k \<Rightarrow> Inr (Arr2 k (brow (brow f) rows rows'))))"

text \<open>An operation between an array and a Python scalar (\<open>999*b+1\<close>, \<open>np.maximum(S,0)\<close>).\<close>

fun np_map :: "('a \<Rightarrow> 'b) \<Rightarrow> 'a ndarray \<Rightarrow> 'b ndarray" where
  "np_map f (Arr0 x) = Arr0 (f x)"
| "np_map f (Arr1 xs) = Arr1 (map f xs)"
| "np_map f (Arr2 m rows) = Arr2 m (map (map f) rows)"

text \<open>\<open>np.sum(x, axis=1)\<close>: one sum per row of a matrix; an array with fewer than two
  dimensions has no axis 1 and numpy raises AxisError.\<close>

fun np_sum_axis1 :: "'a::monoid_add ndarray \<Rightarrow> py_error + 'a ndarray" where
  "np_sum_axis1 (Arr2 m rows) = Inr (Arr1 (map sum_list rows))"
| "np_sum_axis1 (Arr1 xs) = Inl AxisError"
| "np_sum_axis1 (Arr0 x) = Inl AxisError"

section \<open>Sum of squared residuals (models.py, \<open>ssr\<close>)\<close>

text \<open>
  \<^verbatim>\<open>
  def ssr(p,d):
      res = p - d
      ssr = np.sum(np.multiply(res,res),axis=1)
      return [res,ssr]
  \<close>
  The entries are \<^typ>\<open>float64\<close> values, or \<^typ>\<open>real\<close> ones where every entry is
  finite.
\<close>

definition ssr ::
  "'a::{monoid_add, minus, times} ndarray \<Rightarrow> 'a ndarray \<Rightarrow> py_error + ('a ndarray \<times> 'a ndarray)" where
  "ssr p d =
     (case np_binop (-) p d of
        Inl e \<Rightarrow> Inl e
      | Inr res \<Rightarrow>
          (case np_binop (*) res res of
             Inl e \<Rightarrow> Inl e
           | Inr sq \<Rightarrow>
               (case np_sum_axis1 sq of
                  Inl e \<Rightarrow> Inl e
                | Inr s \<Rightarrow> Inr (res, s))))"

section \<open>Linear interpolation (\<open>np.interp\<close>)\<close>

text \<open>
  \<open>np.interp(x, xp, fp)\<close> for increasing sample points \<open>xp\<close> (numpy documents no
  result for unsorted ones): \<open>fp[0]\<close> left of the first point, \<open>fp[-1]\<close> from the
  last point on, and on the segment \<open>xp[j] \<le> x < xp[j+1]\<close> the value \<open>fp[j]\<close> at the
  node itself and \<open>slope * (x - xp[j]) + fp[j]\<close> inside. numpy raises ValueError for an
  empty \<open>xp\<close> and for \<open>fp\<close> and \<open>xp\<close> of different lengths.
\<close>

fun interp_nodes :: "real \<Rightarrow> (real \<times> real) list \<Rightarrow> real" where
  "interp_nodes x [] = 0"
| "interp_nodes x [(x0, y0)] = y0"
| "interp_nodes x ((x0, y0) # (x1, y1) # ps) =
     (if x < x1 then (if x = x0 then y0 else (y1 - y0) / (x1 - x0) * (x - x0) + y0)
      else interp_nodes x ((x1, y1) # ps))"

definition interp_at :: "real list \<Rightarrow> real list \<Rightarrow> real \<Rightarrow> real" where
  "interp_at xp fp x = (if x < hd xp then hd fp else interp_nodes x (zip xp fp))"

definition np_interp :: "real \<Rightarrow> real list \<Rightarrow> real list \<Rightarrow> py_error + real" where
  "np_interp x xp fp =
     (if xp = [] then Inl ValueError
      else if length fp \<noteq> length xp then Inl ValueError
      else Inr (interp_at xp fp x))"

definition np_interp_vec :: "real list \<Rightarrow> real list \<Rightarrow> real list \<Rightarrow> py_error + real list" where
  "np_interp_vec xs xp fp =
     (if xp = [] then Inl ValueError
      else if length fp \<noteq> length xp then Inl ValueError
      else Inr (map (interp_at xp fp) xs))"

section \<open>Storage dynamics (models.py, \<open>interceptionModel\<close>)\<close>

text \<open>
  Division is the one operation of the dynamics that leaves the finite values: numpy
  divides by zero without raising (it warns and yields \<open>inf\<close> or \<open>nan\<close>), and every
  later product and difference with finite operands stays non-finite.
\<close>

definition true_divide :: "real \<Rightarrow> real \<Rightarrow> float64" where
  "true_divide x y = (if y = 0 then NonFinite else Finite (x / y))"

fun mult_f :: "real \<Rightarrow> float64 \<Rightarrow> float64" where
  "mult_f x (Finite q) = Finite (x * q)"
| "mult_f x NonFinite = NonFinite"

fun minus_f :: "real \<Rightarrow> float64 \<Rightarrow> float64" where
  "minus_f x (Finite q) = Finite (x - q)"
| "minus_f x NonFinite = NonFinite"

text \<open>
  \<open>if arr:\<close> on a numpy value: the element of a one-element array, ValueError (the truth
  value of an array with more than one element is ambiguous) for a longer one. An empty
  array is False in the numpy 1.x releases (with a deprecation warning).
\<close>

fun truth_value :: "bool ndarray \<Rightarrow> py_error + bool" where
  "truth_value (Arr0 b) = Inr b"
| "truth_value (Arr1 bs) = (case bs of [] \<Rightarrow> Inr False | [b] \<Rightarrow> Inr b | _ \<Rightarrow> Inl ValueError)"
| "truth_value (Arr2 m rows) =
     (case concat rows of [] \<Rightarrow> Inr False | [b] \<Rightarrow> Inr b | _ \<Rightarrow> Inl ValueError)"

text \<open>
  The forcing value the dynamics use, \<open>np.maximum(np.interp(t,T,F),0)\<close>, evaluated for the
  precipitation series and for the potential evaporation series.
\<close>

definition forcing :: "real \<Rightarrow> real list \<Rightarrow> real list \<Rightarrow> py_error + real" where
  "forcing t T F = (case np_interp t T F of Inl e \<Rightarrow> Inl e | Inr v \<Rightarrow> Inr (max v 0))"

text \<open>
  \<^verbatim>\<open>
  def interceptionModel(t,S,T,Pr,E0,a,b,c,d):
      am = a
      bm = 999*b+1
      cm = 5*c
      dm = 3*d
      S = np.maximum(S,0)
      Pr_int = np.maximum(np.interp(t,T,Pr),0)
      E0_int = np.maximum(np.interp(t,T,E0),0)
      I = am*Pr_int
      if S>cm:
          D = bm*(S-cm)
      else:
          D = 0
      E = (dm*E0_int)*(S/cm)
      dS = I-D-E
      return dS
  \<close>
  The time \<open>t\<close> is a scalar, the series \<open>T\<close>, \<open>Pr\<close>, \<open>E0\<close> are vectors, and the state
  \<open>S\<close> and the parameters are scalars or vectors.
\<close>

definition interceptionModel ::
  "real \<Rightarrow> real ndarray \<Rightarrow> real list \<Rightarrow> real list \<Rightarrow> real list \<Rightarrow>
   real ndarray \<Rightarrow> real ndarray \<Rightarrow> real ndarray \<Rightarrow> real ndarray \<Rightarrow> py_error + float64 ndarray" where
  "interceptionModel t S0 T Pr E0 a b c d =
     (let am = a;
          bm = np_map (\<lambda>b. 999 * b + 1) b;
          cm = np_map (\<lambda>c. 5 * c) c;
          dm = np_map (\<lambda>d. 3 * d) d;
          S = np_map (\<lambda>s. max s 0) S0
      in (case forcing t T Pr of
            Inl e \<Rightarrow> Inl e
          | Inr Pr_int \<Rightarrow>
         (case forcing t T E0 of
            Inl e \<Rightarrow> Inl e
          | Inr E0_int \<Rightarrow>
         (let I = np_map (\<lambda>a. a * Pr_int) am
          in (case np_binop (\<lambda>s c. s > c) S cm of
                Inl e \<Rightarrow> Inl e
              | Inr cond \<Rightarrow>
             (case truth_value cond of
                Inl e \<Rightarrow> Inl e
              | Inr tv \<Rightarrow>
             (case (if tv
                    then (case np_binop (-) S cm of
                            Inl e \<Rightarrow> Inl e
                          | Inr df \<Rightarrow> np_binop (*) bm df)
                    else Inr (Arr0 0)) of
                Inl e \<Rightarrow> Inl e
              | Inr D \<Rightarrow>
             (case np_binop true_divide S cm of
                Inl e \<Rightarrow> Inl e
              | Inr q \<Rightarrow>
             (case np_binop mult_f (np_map (\<lambda>d. d * E0_int) dm) q of
                Inl e \<Rightarrow> Inl e
              | Inr E \<Rightarrow>
             (case np_binop (-) I D of
                Inl e \<Rightarrow> Inl e
              | Inr ID \<Rightarrow> np_binop minus_f ID E))))))))))"

text \<open>
  The dynamics as the specification words them, on one member and with the physical
  coefficients as arguments: clamp the storage, take interception as efficiency times
  precipitation, drainage as rate times the excess over the capacity only when the storage
  exceeds the capacity, evaporation as efficiency times potential evaporation times
  storage over capacity, and return interception minus drainage minus evaporation.
\<close>

definition spec_storage_rate ::
  "real \<Rightarrow> real \<Rightarrow> real \<Rightarrow> real \<Rightarrow> real \<Rightarrow> real \<Rightarrow> real \<Rightarrow> float64" where
  "spec_storage_rate efficiency rate capacity evap P E S0 =
     (let S = max S0 0;
          interception = efficiency * P;
          drainage = (if S > capacity then rate * (S - capacity) else 0)
      in minus_f (interception - drainage) (mult_f (evap * E) (true_divide S capacity)))"

section \<open>The drivers' array plumbing\<close>

text \<open>\<open>X[:,k]\<close>: column \<open>k\<close> of a matrix; IndexError when the axis or the column is missing.\<close>

fun column :: "nat \<Rightarrow> 'a ndarray \<Rightarrow> py_error + 'a list" where
  "column k (Arr2 m rows) = (if k < m then Inr (map (\<lambda>r. r ! k) rows) else Inl IndexError)"
| "column k (Arr1 xs) = Inl IndexError"
| "column k (Arr0 x) = Inl IndexError"

text \<open>The four columns both drivers read from \<open>Pars\<close> and from \<open>Obs\<close>, in source order.\<close>

definition columns4 :: "'a ndarray \<Rightarrow> py_error + ('a list \<times> 'a list \<times> 'a list \<times> 'a list)" where
  "columns4 X =
     (case column 0 X of
        Inl e \<Rightarrow> Inl e
      | Inr c0 \<Rightarrow>
     (case column 1 X of
        Inl e \<Rightarrow> Inl e
      | Inr c1 \<Rightarrow>
     (case column 2 X of
        Inl e \<Rightarrow> Inl e
      | Inr c2 \<Rightarrow>
     (case column 3 X of
        Inl e \<Rightarrow> Inl e
      | Inr c3 \<Rightarrow> Inr (c0, c1, c2, c3)))))"

text \<open>The value stored by \<open>simStor[j,:] = v\<close> into a row of width \<open>N\<close>: \<open>v\<close> is broadcast
  to the row, or ValueError is raised.\<close>

definition row_of_vector :: "nat \<Rightarrow> 'a list \<Rightarrow> py_error + 'a list" where
  "row_of_vector N xs =
     (if length xs = N then Inr xs
      else if length xs = 1 then Inr (replicate N (hd xs))
      else Inl ValueError)"

fun row_value :: "nat \<Rightarrow> 'a ndarray \<Rightarrow> py_error + 'a list" where
  "row_value N (Arr0 x) = Inr (replicate N x)"
| "row_value N (Arr1 xs) = row_of_vector N xs"
| "row_value N (Arr2 m rows) =
     (if length rows = 1 then row_of_vector N (hd rows) else Inl ValueError)"

text \<open>\<open>X.T\<close> for a matrix with rows \<open>rows\<close> of width \<open>N\<close>: the rows of the transpose.\<close>

definition transpose_rows :: "nat \<Rightarrow> 'a list list \<Rightarrow> 'a list list" where
  "transpose_rows N rows = map (\<lambda>j. map (\<lambda>r. r ! j) rows) [0..<N]"

text \<open>
  The module \<open>rungekutta\<close> (\<open>rk.rk4\<close>, \<open>rk.rkf45\<close>) is imported by models.py and is not
  among the source files: both integrators are parameters of the drivers. Each receives
  the model function with its bundled arguments as a closure of \<open>t\<close> and \<open>S\<close>.
\<close>

type_synonym dynamics = "real \<Rightarrow> real ndarray \<Rightarrow> py_error + float64 ndarray"

text \<open>The pair of \<open>mf = interceptionModel\<close> and \<open>args = [obsTime,obsPrec,obsEvap,a,b,c,d]\<close>
  that a driver hands to an integrator, which calls \<open>mf(t, S, *args)\<close>.\<close>

definition mf_args ::
  "real list \<Rightarrow> real list \<Rightarrow> real list \<Rightarrow>
   real ndarray \<Rightarrow> real ndarray \<Rightarrow> real ndarray \<Rightarrow> real ndarray \<Rightarrow> dynamics" where
  "mf_args obsTime obsPrec obsEvap a b c d =
     (\<lambda>t S. interceptionModel t S obsTime obsPrec obsEvap a b c d)"

type_synonym rk4_step = "real \<Rightarrow> real list \<Rightarrow> real \<Rightarrow> dynamics \<Rightarrow> py_error + real ndarray"

type_synonym rkf45_step = "real \<Rightarrow> real \<Rightarrow> real \<Rightarrow> dynamics \<Rightarrow> py_error + (real \<times> real \<times> real)"

text \<open>
  Modelled from the spec: \<open>rk.rk4\<close> (module \<open>rungekutta\<close>, not among the source files) is
  the classical four-stage Runge-Kutta update, every stage one vectorised evaluation of the
  dynamics on the whole state vector. Its first stage evaluates \<open>mf(t, S, *args)\<close> at the
  current time and state, and an exception raised there leaves \<open>rk4\<close>.
\<close>

definition propagates_first_stage :: "rk4_step \<Rightarrow> bool" where
  "propagates_first_stage rk4 =
     (\<forall>t S dt mf e. mf t (Arr1 S) = Inl e \<longrightarrow> rk4 t S dt mf = Inl e)"

section \<open>Fixed-step driver (models.py, \<open>interceptCostRK4\<close>)\<close>

text \<open>
  \<^verbatim>\<open>
  for i,t in enumerate(obsTime):
      j = i+1
      if j >= obsTime.size: break
      simStor[j,:] = rk.rk4(t,simStor[i,:],dt,mf,args)
  \<close>
  \<open>simStor\<close> is the list of its rows (one row per observation time, \<open>N\<close> wide).
\<close>

fun rk4_loop ::
  "rk4_step \<Rightarrow> dynamics \<Rightarrow> real \<Rightarrow> nat \<Rightarrow> nat \<Rightarrow> (nat \<times> real) list \<Rightarrow> real list list
     \<Rightarrow> py_error + real list list" where
  "rk4_loop rk4 mf dt M N [] simStor = Inr simStor"
| "rk4_loop rk4 mf dt M N ((i, t) # rest) simStor =
     (let j = i + 1
      in if j \<ge> M then Inr simStor
         else (case rk4 t (simStor ! i) dt mf of
                 Inl e \<Rightarrow> Inl e
               | Inr v \<Rightarrow>
                   (case row_value N v of
                      Inl e \<Rightarrow> Inl e
                    | Inr r \<Rightarrow> rk4_loop rk4 mf dt M N rest (simStor[j := r]))))"

text \<open>
  \<^verbatim>\<open>
  def interceptCostRK4(Pars, Args):
      a = Pars[:,0] ... d = Pars[:,3]
      Obs = Args[0]; dt = Args[1]
      obsTime = Obs[:,0]; obsStor = Obs[:,1]; obsPrec = Obs[:,2]; obsEvap = Obs[:,3]
      args = [obsTime,obsPrec,obsEvap,a,b,c,d]
      mf = interceptionModel
      simStor = np.zeros((obsTime.size,a.size))
      simStor[0,:] = obsStor[0]
      for ...
      return [simStor.T,ssr(simStor.T,obsStor)]
  \<close>
  \<open>Args\<close> is the pair of \<open>Args[0]\<close> and \<open>Args[1]\<close>; the result is the pair of the
  transposed trajectory matrix and the pair \<open>[res, ssr]\<close>.
\<close>

definition interceptCostRK4 ::
  "rk4_step \<Rightarrow> real ndarray \<Rightarrow> real ndarray \<times> real
     \<Rightarrow> py_error + (real ndarray \<times> (real ndarray \<times> real ndarray))" where
  "interceptCostRK4 rk4 Pars Args =
     (case Args of (Obs, dt) \<Rightarrow>
     (case columns4 Pars of
        Inl e \<Rightarrow> Inl e
      | Inr (a, b, c, d) \<Rightarrow>
     (case columns4 Obs of
        Inl e \<Rightarrow> Inl e
      | Inr (obsTime, obsStor, obsPrec, obsEvap) \<Rightarrow>
     (let mf = mf_args obsTime obsPrec obsEvap (Arr1 a) (Arr1 b) (Arr1 c) (Arr1 d);
          M = length obsTime;
          N = length a;
          simStor = replicate M (replicate N 0)
      in if obsStor = [] then Inl IndexError
         else (case rk4_loop rk4 mf dt M N (enumerate 0 obsTime)
                      (simStor[0 := replicate N (obsStor ! 0)]) of
                 Inl e \<Rightarrow> Inl e
               | Inr simStor' \<Rightarrow>
                   (let simT = Arr2 M (transpose_rows N simStor')
                    in (case ssr simT (Arr1 obsStor) of
                          Inl e \<Rightarrow> Inl e
                        | Inr cost \<Rightarrow> Inr (simT, cost))))))))"

section \<open>Adaptive driver (models.py, \<open>interceptionModel_CF\<close>)\<close>

text \<open>
  \<^verbatim>\<open>
  while obsTime[obsTime.size-1] >= t:
      dt,t,s = rk.rkf45(t,s,dt,mf,args)
      simn = np.vstack((simn,[t,s]))
  \<close>
  The loop ends only when the integrator moves the time past the last observation: a run
  that never ends is the value \<open>None\<close>. \<open>simn\<close> is the list of its \<open>[t, s]\<close> rows.
\<close>

partial_function (option) adaptive_loop ::
  "(real \<Rightarrow> real \<Rightarrow> real \<Rightarrow> py_error + (real \<times> real \<times> real)) \<Rightarrow> real \<Rightarrow> real \<times> real \<times> real
     \<Rightarrow> (real \<times> real) list \<Rightarrow> (py_error + (real \<times> real) list) option" where
  "adaptive_loop step tEnd st simn =
     (case st of (dt, t, s) \<Rightarrow>
        if tEnd \<ge> t
        then (case step t s dt of
                Inl e \<Rightarrow> Some (Inl e)
              | Inr st' \<Rightarrow>
                  (case st' of (dt', t', s') \<Rightarrow>
                     adaptive_loop step tEnd st' (simn @ [(t', s')])))
        else Some (Inr simn))"

declare adaptive_loop.simps [code]

text \<open>
  The body of the loop over the members, for the member with parameters \<open>a b c d\<close>:
  \<^verbatim>\<open>
      t = obsTime[0]
      s = obsStor[0]
      dt  = Args[1]
      simn = np.array([t, s])
      ...
      args = [obsTime,obsPrec,obsEvap,a,b,c,d]
      while ...
      simTime = simn[:,0]
      simStor = simn[:,1]
      obsSims[:,i] = np.interp(obsTime,simTime,simStor)
      sims.append(simn)
  \<close>
  It yields the resampled column and \<open>simn\<close>. When the while loop runs no step, \<open>simn\<close> is
  still the 1-d array \<open>[t, s]\<close> and \<open>simn[:,0]\<close> raises IndexError.
\<close>

definition cf_member ::
  "rkf45_step \<Rightarrow> real list \<Rightarrow> real list \<Rightarrow> real list \<Rightarrow> real list \<Rightarrow> real
     \<Rightarrow> real \<Rightarrow> real \<Rightarrow> real \<Rightarrow> real
     \<Rightarrow> (py_error + (real list \<times> (real \<times> real) list)) option" where
  "cf_member rkf45 obsTime obsStor obsPrec obsEvap dt0 a b c d =
     (if obsTime = [] \<or> obsStor = [] then Some (Inl IndexError)
      else
       (let t = obsTime ! 0;
            s = obsStor ! 0;
            dt = dt0;
            simn = [(t, s)];
            mf = mf_args obsTime obsPrec obsEvap (Arr0 a) (Arr0 b) (Arr0 c) (Arr0 d)
        in (case adaptive_loop (\<lambda>t s dt. rkf45 t s dt mf)
                   (obsTime ! (length obsTime - 1)) (dt, t, s) simn of
              None \<Rightarrow> None
            | Some (Inl e) \<Rightarrow> Some (Inl e)
            | Some (Inr simn') \<Rightarrow>
                if length simn' < 2 then Some (Inl IndexError)
                else (case np_interp_vec obsTime (map fst simn') (map snd simn') of
                        Inl e \<Rightarrow> Some (Inl e)
                      | Inr col \<Rightarrow> Some (Inr (col, simn'))))))"

text \<open>
  \<open>for i in range(...)\<close> over the member indices, with the loop body as a function of
  the index. \<open>obsSims\<close> is the list of its columns (one column per member), so that
  \<open>obsSims[:,i] = col\<close> replaces column \<open>i\<close>.
\<close>

fun cf_for ::
  "(nat \<Rightarrow> (py_error + (real list \<times> (real \<times> real) list)) option) \<Rightarrow> nat list
     \<Rightarrow> real list list \<Rightarrow> (real \<times> real) list list
     \<Rightarrow> (py_error + (real list list \<times> (real \<times> real) list list)) option" where
  "cf_for body [] obsSims sims = Some (Inr (obsSims, sims))"
| "cf_for body (i # rest) obsSims sims =
     (case body i of
        None \<Rightarrow> None
      | Some (Inl e) \<Rightarrow> Some (Inl e)
      | Some (Inr (col, simn)) \<Rightarrow> cf_for body rest (obsSims[i := col]) (sims @ [simn]))"

text \<open>
  \<^verbatim>\<open>
  def interceptionModel_CF(Pars, Args):
      A = Pars[:,0] ... D = Pars[:,3]
      Obs = Args[0]
      obsTime = Obs[:,0]; obsStor = Obs[:,1]; obsPrec = Obs[:,2]; obsEvap = Obs[:,3]
      mf = interceptionModel
      obsSims = np.zeros((obsTime.size,A.size))
      sims = []
      csts = []
      for i in range(A.size-1):
          ...
      csts = ssr(obsSims.T,obsStor)
      return [sims,csts]
  \<close>
  \<open>range(A.size-1)\<close> is empty for \<open>A.size = 0\<close>, as the subtraction on \<open>int\<close> gives.
\<close>

definition interceptionModel_CF ::
  "rkf45_step \<Rightarrow> real ndarray \<Rightarrow> real ndarray \<times> real
     \<Rightarrow> (py_error + ((real \<times> real) list list \<times> (real ndarray \<times> real ndarray))) option" where
  "interceptionModel_CF rkf45 Pars Args =
     (case Args of (Obs, dt0) \<Rightarrow>
     (case columns4 Pars of
        Inl e \<Rightarrow> Some (Inl e)
      | Inr (A, B, C, D) \<Rightarrow>
     (case columns4 Obs of
        Inl e \<Rightarrow> Some (Inl e)
      | Inr (obsTime, obsStor, obsPrec, obsEvap) \<Rightarrow>
     (let M = length obsTime;
          N = length A;
          obsSims = replicate N (replicate M 0)
      in (case cf_for (\<lambda>i. cf_member rkf45 obsTime obsStor obsPrec obsEvap dt0
                              (A ! i) (B ! i) (C ! i) (D ! i))
                 [0..<nat (int N - 1)] obsSims [] of
            None \<Rightarrow> None
          | Some (Inl e) \<Rightarrow> Some (Inl e)
          | Some (Inr (obsSims', sims)) \<Rightarrow>
              (case ssr (Arr2 M obsSims') (Arr1 obsStor) of
                 Inl e \<Rightarrow> Some (Inl e)
               | Inr csts \<Rightarrow> Some (Inr (sims, csts))))))))"

section \<open>Broadcasting and the cost function\<close>

lemma bdim_same: "bdim n n = Some n"
  by (simp add: bdim_def)

lemma brow_same_length: "length xs = length ys \<Longrightarrow> brow f xs ys = map2 f xs ys"
  by (simp add: brow_def)

lemma brow_self: "brow f xs xs = map (\<lambda>x. f x x) xs"
  by (simp add: brow_def zip_same_conv_map)

lemma brow_rows_same_shape:
  assumes "list_all (\<lambda>r. length r = m) rows" "list_all (\<lambda>r. length r = m) rows'"
    and "length rows = length rows'"
  shows "brow (brow f) rows rows' = map2 (map2 f) rows rows'"
proof -
  have "brow f r r' = map2 f r r'" if "(r, r') \<in> set (zip rows rows')" for r r'
  proof -
    have "r \<in> set rows" "r' \<in> set rows'"
      using that by (auto dest: set_zip_leftD set_zip_rightD)
    with assms(1,2) have "length r = length r'"
      by (simp add: list_all_iff)
    then show ?thesis by (rule brow_same_length)
  qed
  then have "map2 (brow f) rows rows' = map2 (map2 f) rows rows'"
    by auto
  then show ?thesis using assms(3) by (simp add: brow_same_length)
qed

lemma ssr_matrix_same_shape:
  assumes "list_all (\<lambda>r. length r = m) rows" "list_all (\<lambda>r. length r = m) rows'"
    and "length rows = length rows'"
  shows "ssr (Arr2 m rows) (Arr2 m rows') =
         Inr (Arr2 m (map2 (map2 (-)) rows rows'),
              Arr1 (map (\<lambda>r. sum_list (map (\<lambda>x. x * x) r)) (map2 (map2 (-)) rows rows')))"
  using assms
  by (simp add: ssr_def bdim_same brow_rows_same_shape brow_self comp_def cong: map_cong)











lemma row_ssr_nth:
  assumes "length r = m" and "length r' = m"
  shows "sum_list (map (\<lambda>x. x * x) (map2 (-) r r')) = (\<Sum>j < m. (r ! j - r' ! j :: real)\<^sup>2)"
proof -
  have "sum_list (map (\<lambda>x. x * x) (map2 (-) r r')) =
        (\<Sum>j = 0..<m. map (\<lambda>x. x * x) (map2 (-) r r') ! j)"
    using assms by (simp add: sum_list_sum_nth)
  also have "\<dots> = (\<Sum>j = 0..<m. (r ! j - r' ! j)\<^sup>2)"
    using assms by (intro sum.cong) (auto simp: power2_eq_square)
  finally show ?thesis by (simp add: lessThan_atLeast0)
qed

lemma ssr_matrix_result:
  fixes rows rows' :: "real list list"
  assumes "wf_ndarray (Arr2 m rows)" and "wf_ndarray (Arr2 m rows')"
    and "length rows = length rows'"
  shows "\<exists>res s. ssr (Arr2 m rows) (Arr2 m rows') = Inr (Arr2 m res, Arr1 s)
         \<and> wf_ndarray (Arr2 m res) \<and> shape (Arr2 m res) = shape (Arr2 m rows)
         \<and> length s = length rows
         \<and> (\<forall>i < length rows. s ! i = (\<Sum>j < m. (rows ! i ! j - rows' ! i ! j)\<^sup>2))"
proof -
  let ?res = "map2 (map2 (-)) rows rows'"
  let ?sq = "\<lambda>r :: real list. sum_list (map (\<lambda>x. x * x) r)"
  have len: "length (rows ! i) = m" "length (rows' ! i) = m" if "i < length rows" for i
    using assms that by (simp_all add: list_all_length)
  have "ssr (Arr2 m rows) (Arr2 m rows') = Inr (Arr2 m ?res, Arr1 (map ?sq ?res))"
    using assms by (simp add: ssr_matrix_same_shape)
  moreover have "wf_ndarray (Arr2 m ?res)"
    using assms len by (simp add: list_all_length)
  moreover have "shape (Arr2 m ?res) = shape (Arr2 m rows)"
    using assms(3) by simp
  moreover have "length (map ?sq ?res) = length rows"
    using assms(3) by simp
  moreover have "\<forall>i < length rows. map ?sq ?res ! i = (\<Sum>j < m. (rows ! i ! j - rows' ! i ! j)\<^sup>2)"
  proof (intro allI impI)
    fix i assume i: "i < length rows"
    then have "map ?sq ?res ! i = ?sq (map2 (-) (rows ! i) (rows' ! i))"
      using assms(3) by simp
    also have "\<dots> = (\<Sum>j < m. (rows ! i ! j - rows' ! i ! j)\<^sup>2)"
      using len [OF i] by (rule row_ssr_nth)
    finally show "map ?sq ?res ! i = (\<Sum>j < m. (rows ! i ! j - rows' ! i ! j)\<^sup>2)" .
  qed
  ultimately show ?thesis by blast
qed

lemma ssr_vectors_fail: "\<exists>e. ssr (Arr1 xs) (Arr1 ys) = Inl e"
  by (simp add: ssr_def split: option.split)

lemma ssr_vectors_axis_error:
  "length xs = length ys \<or> length xs = 1 \<or> length ys = 1 \<Longrightarrow>
   ssr (Arr1 xs) (Arr1 ys) = Inl AxisError"
  by (auto simp: ssr_def bdim_def)

lemma ssr_reshaped_row:
  fixes xs ys :: "real list"
  assumes "length xs = length ys"
  shows "ssr (Arr2 (length xs) [xs]) (Arr2 (length xs) [ys]) =
          Inr (Arr2 (length xs) [map2 (-) xs ys], Arr1 [\<Sum>j < length xs. (xs ! j - ys ! j)\<^sup>2])"
proof -
  have e: "sum_list (map (\<lambda>x. x * x) (map2 (-) xs ys)) = (\<Sum>j < length xs. (xs ! j - ys ! j)\<^sup>2)"
    using assms by (intro row_ssr_nth) simp_all
  have "ssr (Arr2 (length xs) [xs]) (Arr2 (length xs) [ys]) =
          Inr (Arr2 (length xs) [map2 (-) xs ys],
               Arr1 [sum_list (map (\<lambda>x. x * x) (map2 (-) xs ys))])"
    using assms by (subst ssr_matrix_same_shape) simp_all
  then show ?thesis by (simp only: e)
qed

text \<open>
  C10: on two matrices of equal shape \<open>ssr\<close> returns a residual matrix of that shape and
  one sum of squared residuals per row; on two 1-d vectors it always fails, with AxisError
  (there is no axis 1 to sum over) whenever the subtraction itself broadcasts; a flat
  trajectory reshaped to a \<open>1 \<times> M\<close> matrix is scored.
\<close>

theorem ssr_two_dimensional_only:
  fixes rows rows' :: "real list list" and xs ys :: "real list"
  shows "(wf_ndarray (Arr2 m rows) \<and> wf_ndarray (Arr2 m rows') \<and> length rows = length rows' \<longrightarrow>
      (\<exists>res s. ssr (Arr2 m rows) (Arr2 m rows') = Inr (Arr2 m res, Arr1 s)
         \<and> wf_ndarray (Arr2 m res) \<and> shape (Arr2 m res) = shape (Arr2 m rows)
         \<and> length s = length rows
         \<and> (\<forall>i < length rows. s ! i = (\<Sum>j < m. (rows ! i ! j - rows' ! i ! j)\<^sup>2))))
   \<and> (\<exists>e. ssr (Arr1 xs) (Arr1 ys) = Inl e)
   \<and> (length xs = length ys \<or> length xs = 1 \<or> length ys = 1 \<longrightarrow>
        ssr (Arr1 xs) (Arr1 ys) = Inl AxisError)
   \<and> (length xs = length ys \<longrightarrow>
        ssr (Arr2 (length xs) [xs]) (Arr2 (length xs) [ys]) =
          Inr (Arr2 (length xs) [map2 (-) xs ys], Arr1 [\<Sum>j < length xs. (xs ! j - ys ! j)\<^sup>2]))"
  using ssr_matrix_result [of m rows rows'] ssr_vectors_fail [of xs ys]
    ssr_vectors_axis_error [of xs ys] ssr_reshaped_row [of xs ys]
  by blast

theorem ssr_two_dimensional_only_witness:
  "(\<exists>res s. ssr (Arr2 2 [[1, 2], [3, 4 :: real]]) (Arr2 2 [[1, 1], [1, 1]]) = Inr (Arr2 2 res, Arr1 s)
       \<and> length res = 2 \<and> length s = 2)
   \<and> ssr (Arr1 [1, 2 :: real]) (Arr1 [1, 1]) = Inl AxisError
   \<and> ssr (Arr2 2 [[1, 2 :: real]]) (Arr2 2 [[1, 1]]) = Inr (Arr2 2 [[0, 1]], Arr1 [1])"
  using ssr_two_dimensional_only [of 2 "[[1, 2], [3, 4]]" "[[1, 1], [1, 1]]" "[1, 2]" "[1, 1]"]
  by (auto simp: lessThan_Suc numeral_2_eq_2)

text \<open>
  C5, as stated, fails: \<open>ssr\<close> has no shape check of its own, and numpy broadcasts an
  observed vector of length 1 against a simulated matrix with two time points.
\<close>

theorem ssr_broadcast_counterexample:
  "last (shape (Arr2 2 [[1, 2], [3, 4 :: real]])) \<noteq> last (shape (Arr1 [1 :: real]))
   \<and> ssr (Arr2 2 [[1, 2], [3, 4 :: real]]) (Arr1 [1]) = Inr (Arr2 2 [[0, 1], [2, 3]], Arr1 [1, 13])"
  by (simp add: ssr_def bdim_def brow_def)

lemma ssr_matrix_vector_error:
  "ssr (Arr2 m rows) (Arr1 ys) = Inl ValueError \<longleftrightarrow> m \<noteq> length ys \<and> m \<noteq> 1 \<and> length ys \<noteq> 1"
  by (auto simp: ssr_def bdim_def split: option.splits sum.splits)

lemma ssr_matrix_matrix_error:
  "ssr (Arr2 m rows) (Arr2 m' rows') = Inl ValueError \<longleftrightarrow>
     \<not> ((length rows = length rows' \<or> length rows = 1 \<or> length rows' = 1)
        \<and> (m = m' \<or> m = 1 \<or> m' = 1))"
  by (auto simp: ssr_def bdim_def split: option.splits sum.splits)

lemma ssr_matrix_vector_ok:
  "m = length ys \<or> m = 1 \<or> length ys = 1 \<Longrightarrow>
   \<exists>k res s. ssr (Arr2 m rows) (Arr1 ys) = Inr (Arr2 k res, Arr1 s) \<and> length s = length rows"
  by (auto simp: ssr_def bdim_def brow_self split: option.splits sum.splits)

text \<open>
  C5, amended: for a simulated matrix with \<open>m\<close> time points and an observed vector, or
  matrix, \<open>ssr\<close> raises ValueError exactly when the axes cannot be broadcast together
  (lengths that differ with neither equal to 1); in particular it raises when the time-axis
  lengths differ and neither is 1, and it returns a result, one SSR per row, when they are
  equal or one of them is 1.
\<close>

theorem ssr_raises_iff_not_broadcastable:
  fixes rows rows' :: "real list list" and ys :: "real list"
  shows "(ssr (Arr2 m rows) (Arr1 ys) = Inl ValueError \<longleftrightarrow> m \<noteq> length ys \<and> m \<noteq> 1 \<and> length ys \<noteq> 1)
   \<and> (ssr (Arr2 m rows) (Arr2 m' rows') = Inl ValueError \<longleftrightarrow>
        \<not> ((length rows = length rows' \<or> length rows = 1 \<or> length rows' = 1)
           \<and> (m = m' \<or> m = 1 \<or> m' = 1)))
   \<and> (m = length ys \<or> m = 1 \<or> length ys = 1 \<longrightarrow>
        (\<exists>k res s. ssr (Arr2 m rows) (Arr1 ys) = Inr (Arr2 k res, Arr1 s)
                   \<and> length s = length rows))"
  using ssr_matrix_vector_error [of m rows ys] ssr_matrix_matrix_error [of m rows m' rows']
    ssr_matrix_vector_ok [of m ys rows]
  by blast

theorem ssr_raises_iff_not_broadcastable_witness:
  "ssr (Arr2 2 [[1, 2], [3, 4 :: real]]) (Arr1 [1, 2, 3]) = Inl ValueError
   \<and> (\<exists>k res s. ssr (Arr2 2 [[1, 2], [3, 4 :: real]]) (Arr1 [5]) = Inr (Arr2 k res, Arr1 s) \<and> length s = 2)"
proof -
  have "ssr (Arr2 2 [[1, 2], [3, 4 :: real]]) (Arr1 [1, 2, 3]) = Inl ValueError"
    using ssr_raises_iff_not_broadcastable [of 2 "[[1, 2], [3, 4]]" "[1, 2, 3]" 2 "[]"] by simp
  moreover have "\<exists>k res s. ssr (Arr2 2 [[1, 2], [3, 4 :: real]]) (Arr1 [5]) = Inr (Arr2 k res, Arr1 s)
      \<and> length s = 2"
    using ssr_raises_iff_not_broadcastable [of 2 "[[1, 2], [3, 4]]" "[5]" 2 "[]"]
    by (auto simp: numeral_2_eq_2)
  ultimately show ?thesis by blast
qed

section \<open>Interpolation: resampling and forcing\<close>

lemma interp_nodes_at_node:
  assumes "sorted_wrt (<) (map fst ps)" and "k < length ps"
  shows "interp_nodes (fst (ps ! k)) ps = snd (ps ! k)"
  using assms
proof (induction "fst (ps ! k)" ps arbitrary: k rule: interp_nodes.induct)
  case 1
  then show ?case by simp
next
  case (2 x0 y0)
  then show ?case by simp
next
  case (3 x0 y0 x1 y1 ps)
  show ?case
  proof (cases k)
    case 0
    with "3.prems" show ?thesis by simp
  next
    case (Suc k')
    with "3.prems" have k': "k' < length ((x1, y1) # ps)" by simp
    have ge: "x1 \<le> fst (((x1, y1) # ps) ! k')"
      using "3.prems"(1) k' by (cases k') (auto simp: less_imp_le)
    have srt: "sorted_wrt (<) (map fst ((x1, y1) # ps))"
      using "3.prems"(1) by simp
    have "interp_nodes (fst (((x1, y1) # ps) ! k')) ((x1, y1) # ps) = snd (((x1, y1) # ps) ! k')"
      using "3.hyps" [of k'] ge srt k' Suc by simp
    with ge Suc show ?thesis by simp
  qed
qed

lemma interp_at_node:
  assumes "sorted_wrt (<) (map fst ps)" and "k < length ps"
  shows "interp_at (map fst ps) (map snd ps) (fst (ps ! k)) = snd (ps ! k)"
proof -
  have "\<not> fst (ps ! k) < hd (map fst ps)"
  proof (cases k)
    case 0
    with assms(2) show ?thesis by (cases ps) auto
  next
    case (Suc k')
    with assms show ?thesis by (cases ps) (auto simp: less_imp_le not_less)
  qed
  then show ?thesis
    using assms by (simp add: interp_at_def zip_map_fst_snd interp_nodes_at_node)
qed

text \<open>
  C9: resampling is exact at existing nodes. For a trajectory \<open>simn\<close> (the rows \<open>[t, s]\<close>,
  at least the initial one) with strictly increasing times, interpolating it onto its own
  times, as the driver does with \<open>np.interp(obsTime, simn[:,0], simn[:,1])\<close>, returns
  its storage values.
\<close>

theorem resample_own_nodes_exact:
  assumes "simn \<noteq> []" and "sorted_wrt (<) (map fst simn)"
  shows "np_interp_vec (map fst simn) (map fst simn) (map snd simn) = Inr (map snd simn)"
proof -
  have "map (interp_at (map fst simn) (map snd simn)) (map fst simn) = map snd simn"
    using assms(2) by (intro nth_equalityI) (simp_all add: interp_at_node)
  with assms(1) show ?thesis by (simp add: np_interp_vec_def)
qed

theorem resample_own_nodes_exact_witness:
  "[(0 :: real, 5 :: real), (1, 7), (5/2, 6)] \<noteq> [] \<and> sorted_wrt (<) (map fst [(0 :: real, 5 :: real), (1, 7), (5/2, 6)])
   \<and> np_interp_vec [0, 1, 5/2] [0, 1, 5/2] [5, 7, 6] = Inr [5, 7, 6]"
  using resample_own_nodes_exact [of "[(0, 5), (1, 7), (5/2, 6)]"]
  by simp

lemma interp_nodes_head_node:
  assumes "sorted_wrt (<) (map fst ((x, y) # ps))"
  shows "interp_nodes x ((x, y) # ps) = y"
  using interp_nodes_at_node [OF assms, of 0] by simp

lemma interp_nodes_segment:
  assumes "sorted_wrt (<) (map fst ps)" and "Suc j < length ps"
    and "fst (ps ! j) \<le> t" and "t \<le> fst (ps ! Suc j)"
  shows "interp_nodes t ps =
         snd (ps ! j) + (snd (ps ! Suc j) - snd (ps ! j)) * (t - fst (ps ! j))
                         / (fst (ps ! Suc j) - fst (ps ! j))"
  using assms
proof (induction t ps arbitrary: j rule: interp_nodes.induct)
  case (1 x)
  then show ?case by simp
next
  case (2 x x0 y0)
  then show ?case by simp
next
  case (3 x x0 y0 x1 y1 ps)
  have x01: "x0 < x1" using "3.prems"(1) by simp
  have srt: "sorted_wrt (<) (map fst ((x1, y1) # ps))" using "3.prems"(1) by simp
  show ?case
  proof (cases j)
    case 0
    with "3.prems" have bounds: "x0 \<le> x" "x \<le> x1" by simp_all
    show ?thesis
    proof (cases "x < x1")
      case True
      with 0 x01 show ?thesis by (simp add: field_simps)
    next
      case False
      with bounds have "x = x1" by simp
      with 0 x01 interp_nodes_head_node [OF srt] show ?thesis by simp
    qed
  next
    case (Suc j')
    with "3.prems" have j': "Suc j' < length ((x1, y1) # ps)"
      and lo: "fst (((x1, y1) # ps) ! j') \<le> x"
      and hi: "x \<le> fst (((x1, y1) # ps) ! Suc j')" by simp_all
    have "x1 \<le> fst (((x1, y1) # ps) ! j')"
      using srt j' by (cases j') (auto simp: less_imp_le)
    with lo have nl: "\<not> x < x1" by simp
    from "3.IH" [OF nl srt j' lo hi] nl Suc show ?thesis by simp
  qed
qed

lemma segment_exists:
  assumes "hd T \<le> (t :: real)" and "t \<le> last T" and "2 \<le> length T"
  shows "\<exists>j. Suc j < length T \<and> T ! j \<le> t \<and> t \<le> T ! Suc j"
  using assms
proof (induction T rule: induct_list012)
  case 1
  then show ?case by simp
next
  case (2 x)
  then show ?case by simp
next
  case (3 x0 x1 rest)
  show ?case
  proof (cases "t \<le> x1")
    case True
    with "3.prems" have "Suc 0 < length (x0 # x1 # rest) \<and> (x0 # x1 # rest) ! 0 \<le> t
        \<and> t \<le> (x0 # x1 # rest) ! Suc 0" by simp
    then show ?thesis by blast
  next
    case False
    with "3.prems" have ne: "rest \<noteq> []" by auto
    have "hd (x1 # rest) \<le> t" using False by simp
    moreover have "t \<le> last (x1 # rest)" using "3.prems"(2) by simp
    moreover have "2 \<le> length (x1 # rest)" using ne by (cases rest) simp_all
    ultimately have "\<exists>j. Suc j < length (x1 # rest) \<and> (x1 # rest) ! j \<le> t \<and> t \<le> (x1 # rest) ! Suc j"
      by (rule "3.IH"(2))
    then obtain j where
      "Suc j < length (x1 # rest)" "(x1 # rest) ! j \<le> t" "t \<le> (x1 # rest) ! Suc j"
      by blast
    then have "Suc (Suc j) < length (x0 # x1 # rest) \<and> (x0 # x1 # rest) ! Suc j \<le> t
        \<and> t \<le> (x0 # x1 # rest) ! Suc (Suc j)" by simp
    then show ?thesis by blast
  qed
qed

lemma forcing_value:
  assumes "T \<noteq> []" and "length F = length T"
  shows "forcing t T F = Inr (max (interp_at T F t) 0)"
  using assms by (simp add: forcing_def np_interp_def)

text \<open>
  C8: for a non-empty series \<open>T\<close> with values \<open>F\<close> of the same length the forcing value
  exists and is non-negative. When the times are strictly increasing, a query time on the
  segment from \<open>T[j]\<close> to \<open>T[j+1]\<close> gets the linear interpolation between the recorded
  values, floored at zero; every time within the span of a series of two or more points
  lies on such a segment; and at a recorded time the value is the recorded one, floored.
\<close>

theorem forcing_interpolates_floored:
  assumes "T \<noteq> []" and "length F = length T"
  shows "\<exists>v. forcing t T F = Inr v \<and> 0 \<le> v
           \<and> (sorted_wrt (<) T \<longrightarrow>
                (\<forall>j. Suc j < length T \<and> T ! j \<le> t \<and> t \<le> T ! Suc j \<longrightarrow>
                   v = max (F ! j + (F ! Suc j - F ! j) * (t - T ! j) / (T ! Suc j - T ! j)) 0)
              \<and> (hd T \<le> t \<and> t \<le> last T \<and> 2 \<le> length T \<longrightarrow>
                   (\<exists>j. Suc j < length T \<and> T ! j \<le> t \<and> t \<le> T ! Suc j))
              \<and> (\<forall>j < length T. t = T ! j \<longrightarrow> v = max (F ! j) 0))"
proof -
  let ?ps = "zip T F"
  have fst_ps: "map fst ?ps = T" and snd_ps: "map snd ?ps = F" and len: "length ?ps = length T"
    using assms(2) by simp_all
  have seg: "interp_at T F t = F ! j + (F ! Suc j - F ! j) * (t - T ! j) / (T ! Suc j - T ! j)"
    if srt: "sorted_wrt (<) T" and j: "Suc j < length T" and lo: "T ! j \<le> t" and hi: "t \<le> T ! Suc j"
    for j
  proof -
    have "hd T \<le> T ! j"
      using srt j by (cases T; cases j) (auto simp: less_imp_le)
    with lo have "\<not> t < hd T" by simp
    moreover have "interp_nodes t ?ps =
        snd (?ps ! j) + (snd (?ps ! Suc j) - snd (?ps ! j)) * (t - fst (?ps ! j))
                         / (fst (?ps ! Suc j) - fst (?ps ! j))"
      using srt j lo hi assms(2) by (intro interp_nodes_segment) (simp_all add: fst_ps)
    ultimately show ?thesis
      using j assms(2) by (simp add: interp_at_def)
  qed
  have node: "interp_at T F t = F ! j"
    if srt: "sorted_wrt (<) T" and j: "j < length T" and t: "t = T ! j" for j
  proof -
    have "interp_at (map fst ?ps) (map snd ?ps) (fst (?ps ! j)) = snd (?ps ! j)"
      using srt j len by (intro interp_at_node) (simp_all add: fst_ps)
    then show ?thesis
      using j t assms(2) by (simp add: fst_ps snd_ps)
  qed
  have span: "\<exists>j. Suc j < length T \<and> T ! j \<le> t \<and> t \<le> T ! Suc j"
    if "hd T \<le> t \<and> t \<le> last T \<and> 2 \<le> length T"
    using that segment_exists [of T t] by blast
  have "0 \<le> max (interp_at T F t) 0" by simp
  with forcing_value [OF assms, of t] seg node span show ?thesis
    by (intro exI [of _ "max (interp_at T F t) 0"]) auto
qed

theorem forcing_interpolates_floored_witness:
  "[0, 1, 2 :: real] \<noteq> [] \<and> sorted_wrt (<) [0, 1, 2 :: real]
   \<and> forcing (3/2) [0, 1, 2] [4, 2, - 8] = Inr 0
   \<and> forcing (1/2) [0, 1, 2] [4, 2, - 8] = Inr 3
   \<and> forcing 1 [0, 1, 2] [4, 2, - 8] = Inr 2"
  using forcing_interpolates_floored [of "[0, 1, 2]" "[4, 2, - 8]" "3/2"]
    forcing_interpolates_floored [of "[0, 1, 2]" "[4, 2, - 8]" "1/2"]
    forcing_interpolates_floored [of "[0, 1, 2]" "[4, 2, - 8]" 1]
  by (simp add: forcing_def np_interp_def interp_at_def)

section \<open>Properties of the storage dynamics\<close>

lemma interceptionModel_scalar:
  assumes "T \<noteq> []" and "length Pr = length T" and "length E0 = length T"
  shows "interceptionModel t (Arr0 S) T Pr E0 (Arr0 a) (Arr0 b) (Arr0 c) (Arr0 d) =
         Inr (Arr0 (spec_storage_rate a (999 * b + 1) (5 * c) (3 * d)
                      (max (interp_at T Pr t) 0) (max (interp_at T E0 t) 0) S))"
  using assms
  by (simp add: interceptionModel_def spec_storage_rate_def forcing_value Let_def)

lemma interceptionModel_vector_raises:
  assumes "T \<noteq> []" and "length Pr = length T" and "length E0 = length T"
    and "length cs = length ss" and "2 \<le> length ss"
  shows "interceptionModel t (Arr1 ss) T Pr E0 a b (Arr1 cs) d = Inl ValueError"
proof -
  obtain s1 s2 ss' where ss: "ss = s1 # s2 # ss'"
    using assms(5) by (cases ss; cases "tl ss") auto
  with assms(4) obtain c1 c2 cs' where cs: "cs = c1 # c2 # cs'"
    by (cases cs; cases "tl cs") auto
  show ?thesis
    using assms(1-4) unfolding ss cs
    by (simp add: interceptionModel_def forcing_value Let_def bdim_same brow_def)
qed

lemma interceptionModel_width_one:
  assumes "T \<noteq> []" and "length Pr = length T" and "length E0 = length T"
  shows "interceptionModel t (Arr1 [S]) T Pr E0 (Arr1 [a]) (Arr1 [b]) (Arr1 [c]) (Arr1 [d]) =
         Inr (Arr1 [spec_storage_rate a (999 * b + 1) (5 * c) (3 * d)
                      (max (interp_at T Pr t) 0) (max (interp_at T E0 t) 0) S])"
  using assms
  by (simp add: interceptionModel_def spec_storage_rate_def forcing_value Let_def bdim_same brow_def)

text \<open>
  C7: for all raw parameters \<open>a b c d\<close>, a scalar state and well-formed forcing series,
  the dynamics return, without raising, the rate of the specification's dynamics at the
  physical coefficients \<open>a\<close>, \<open>999 b + 1\<close>, \<open>5 c\<close> and \<open>3 d\<close>.
\<close>

theorem parameter_transform_used_by_dynamics:
  assumes "T \<noteq> []" and "length Pr = length T" and "length E0 = length T"
  shows "\<exists>P E. forcing t T Pr = Inr P \<and> forcing t T E0 = Inr E
           \<and> interceptionModel t (Arr0 S) T Pr E0 (Arr0 a) (Arr0 b) (Arr0 c) (Arr0 d) =
               Inr (Arr0 (spec_storage_rate a (999 * b + 1) (5 * c) (3 * d) P E S))"
  using assms by (simp add: interceptionModel_scalar forcing_value)

theorem parameter_transform_used_by_dynamics_witness:
  "[0, 1 :: real] \<noteq> [] \<and> length [2, 2 :: real] = length [0, 1 :: real]
   \<and> length [1, 1 :: real] = length [0, 1 :: real]
   \<and> (\<exists>P E. forcing (1/2) [0, 1] [2, 2] = Inr P \<and> forcing (1/2) [0, 1] [1, 1] = Inr E
         \<and> interceptionModel (1/2) (Arr0 6) [0, 1] [2, 2] [1, 1] (Arr0 1) (Arr0 (1/999)) (Arr0 1) (Arr0 1)
             = Inr (Arr0 (spec_storage_rate 1 2 5 3 P E 6)))"
  using parameter_transform_used_by_dynamics [of "[0, 1]" "[2, 2]" "[1, 1]" "1/2" 6 1 "1/999" 1 1]
  by simp

text \<open>
  C3, as stated, fails: with raw capacity parameter \<open>c = 0\<close> the dynamics raise nothing;
  the division by the zero capacity is performed and its non-finite result returned.
\<close>

theorem zero_capacity_counterexample:
  "interceptionModel (1/2) (Arr0 6) [0, 1] [2, 2] [1, 1] (Arr0 1) (Arr0 0) (Arr0 0) (Arr0 1)
     = Inr (Arr0 NonFinite)"
  by (simp add: interceptionModel_scalar spec_storage_rate_def true_divide_def)

text \<open>
  C3, amended: the dynamics have no check of the capacity. For every scalar state and
  parameters with \<open>c = 0\<close>, and well-formed forcing series, the right-hand side raises no
  error: it divides the storage by the zero capacity and returns a non-finite value.
\<close>

theorem zero_capacity_divides_without_error:
  assumes "T \<noteq> []" and "length Pr = length T" and "length E0 = length T"
  shows "interceptionModel t (Arr0 S) T Pr E0 (Arr0 a) (Arr0 b) (Arr0 0) (Arr0 d) = Inr (Arr0 NonFinite)"
  using assms by (simp add: interceptionModel_scalar spec_storage_rate_def true_divide_def)

theorem zero_capacity_divides_without_error_witness:
  "[0, 1 :: real] \<noteq> [] \<and> length [3, 1 :: real] = length [0, 1 :: real]
   \<and> length [1, 2 :: real] = length [0, 1 :: real]
   \<and> interceptionModel (1/4) (Arr0 2) [0, 1] [3, 1] [1, 2] (Arr0 (1/2)) (Arr0 (1/3)) (Arr0 0) (Arr0 1)
       = Inr (Arr0 NonFinite)"
  using zero_capacity_divides_without_error [of "[0, 1]" "[3, 1]" "[1, 2]" "1/4" 2 "1/2" "1/3" 1]
  by simp

text \<open>
  C2 does not hold of the code. On a state vector of two members (storages 1 and 6,
  capacity 5 for both) the test \<open>if S>cm\<close> raises ValueError, the truth value of a
  two-element array being ambiguous; evaluated member by member the dynamics give the
  rates \<open>7/5\<close> (no drainage) and \<open>- 13/5\<close> (drainage), which an elementwise conditional
  would return together. The lemma \<open>interceptionModel_vector_raises\<close> gives the error for
  every width of two or more, \<open>interceptionModel_width_one\<close> the result for width one.
\<close>

theorem interceptionModel_vector_state_raises:
  "interceptionModel (1/2) (Arr1 [1, 6]) [0, 1] [2, 2] [1, 1]
       (Arr1 [1, 1]) (Arr1 [0, 0]) (Arr1 [1, 1]) (Arr1 [1, 1]) = Inl ValueError
   \<and> interceptionModel (1/2) (Arr0 1) [0, 1] [2, 2] [1, 1]
       (Arr0 1) (Arr0 0) (Arr0 1) (Arr0 1) = Inr (Arr0 (Finite (7/5)))
   \<and> interceptionModel (1/2) (Arr0 6) [0, 1] [2, 2] [1, 1]
       (Arr0 1) (Arr0 0) (Arr0 1) (Arr0 1) = Inr (Arr0 (Finite (- 13/5)))"
  by (simp add: interceptionModel_vector_raises interceptionModel_scalar spec_storage_rate_def
      interp_at_def true_divide_def)

section \<open>Properties of the fixed-step driver\<close>

lemma row_value_length: "row_value N v = Inr r \<Longrightarrow> length r = N"
  by (cases v) (auto simp: row_of_vector_def split: if_splits)

lemma column_Inr: "column k X = Inr c \<Longrightarrow> \<exists>m rows. X = Arr2 m rows \<and> k < m \<and> c = map (\<lambda>r. r ! k) rows"
  by (cases X) (auto split: if_splits)

lemma columns4_Inr:
  assumes "columns4 X = Inr (c0, c1, c2, c3)"
  shows "\<exists>m rows. X = Arr2 m rows \<and> 4 \<le> m \<and> c0 = map (\<lambda>r. r ! 0) rows \<and> c1 = map (\<lambda>r. r ! 1) rows
           \<and> c2 = map (\<lambda>r. r ! 2) rows \<and> c3 = map (\<lambda>r. r ! 3) rows"
  using assms by (cases X) (auto simp: columns4_def split: if_splits)

lemma columns4_lengths:
  assumes "columns4 X = Inr (c0, c1, c2, c3)"
  shows "length c1 = length c0" "length c2 = length c0" "length c3 = length c0"
  using columns4_Inr [OF assms] by auto

lemma rk4_loop_run:
  assumes ok: "\<And>t S. length S = N \<Longrightarrow> \<exists>v r. rk4 t S dt mf = Inr v \<and> row_value N v = Inr r"
    and "length sim = M" and "\<forall>r \<in> set sim. length r = N" and "k + length ts = M"
  shows "\<exists>sim'. rk4_loop rk4 mf dt M N (enumerate k ts) sim = Inr sim' \<and> length sim' = M
           \<and> (\<forall>r \<in> set sim'. length r = N) \<and> (\<forall>i \<le> k. sim' ! i = sim ! i)
           \<and> (\<forall>j. k \<le> j \<and> Suc j < M \<longrightarrow>
                 (\<exists>v. rk4 (ts ! (j - k)) (sim' ! j) dt mf = Inr v
                       \<and> row_value N v = Inr (sim' ! Suc j)))"
  using assms(2-)
proof (induction ts arbitrary: k sim)
  case Nil
  then show ?case by auto
next
  case (Cons t ts)
  show ?case
  proof (cases "M \<le> Suc k")
    case True
    with Cons.prems show ?thesis by auto
  next
    case False
    then have k: "Suc k < M" by simp
    with Cons.prems have "length (sim ! k) = N" by simp
    from ok [OF this, of t] obtain v r where
      step: "rk4 t (sim ! k) dt mf = Inr v" "row_value N v = Inr r" by blast
    then have r: "length r = N" by (simp add: row_value_length)
    let ?sim = "sim[Suc k := r]"
    have "length ?sim = M" using Cons.prems by simp
    moreover have "\<forall>q \<in> set ?sim. length q = N"
      using Cons.prems(2) r set_update_subset_insert [of sim "Suc k" r] by auto
    moreover have "Suc k + length ts = M" using Cons.prems by simp
    ultimately obtain sim' where
      run: "rk4_loop rk4 mf dt M N (enumerate (Suc k) ts) ?sim = Inr sim'"
      and len: "length sim' = M" and rows: "\<forall>q \<in> set sim'. length q = N"
      and keep: "\<forall>i \<le> Suc k. sim' ! i = ?sim ! i"
      and later: "\<forall>j. Suc k \<le> j \<and> Suc j < M \<longrightarrow>
                 (\<exists>v. rk4 (ts ! (j - Suc k)) (sim' ! j) dt mf = Inr v
                       \<and> row_value N v = Inr (sim' ! Suc j))"
      using Cons.IH [of ?sim "Suc k"] by blast
    have at_k: "sim' ! k = sim ! k" and at_Sk: "sim' ! Suc k = r"
      using keep k Cons.prems(1) by simp_all
    have "rk4_loop rk4 mf dt M N (enumerate k (t # ts)) sim = Inr sim'"
      using False step run by simp
    moreover have "\<forall>i \<le> k. sim' ! i = sim ! i"
      using keep by simp
    moreover have "\<exists>v. rk4 ((t # ts) ! (j - k)) (sim' ! j) dt mf = Inr v
                       \<and> row_value N v = Inr (sim' ! Suc j)"
      if "k \<le> j" and "Suc j < M" for j
    proof (cases "j = k")
      case True
      with step at_k at_Sk show ?thesis by simp
    next
      case False
      with that have "Suc k \<le> j" by simp
      with later that have "\<exists>v. rk4 (ts ! (j - Suc k)) (sim' ! j) dt mf = Inr v
                       \<and> row_value N v = Inr (sim' ! Suc j)" by blast
      moreover have "(t # ts) ! (j - k) = ts ! (j - Suc k)"
        using \<open>Suc k \<le> j\<close> by (simp add: Suc_diff_le)
      ultimately show ?thesis by simp
    qed
    ultimately show ?thesis using len rows by blast
  qed
qed

lemma ssr_matrix_vector:
  assumes "length ys = m"
  shows "\<exists>res s. ssr (Arr2 m rows) (Arr1 ys) = Inr (Arr2 m res, Arr1 s)
           \<and> length res = length rows \<and> length s = length rows"
  using assms by (simp add: ssr_def bdim_same brow_self)

lemma transpose_rows_shape:
  "length (transpose_rows N rows) = N"
  "\<forall>r \<in> set (transpose_rows N rows). length r = length rows"
  by (simp_all add: transpose_rows_def)

lemma transpose_rows_first:
  assumes "rows \<noteq> []" and "rows ! 0 = replicate N x"
  shows "\<forall>r \<in> set (transpose_rows N rows). r ! 0 = x"
  using assms by (cases rows) (auto simp: transpose_rows_def)

text \<open>
  The invariants of a run of the fixed-step driver in which every integrator step returns
  a value that fits a row: the trajectory matrix has one row per member and one column per
  observation time, every member starts from the first observed storage, the state at
  observation \<open>j + 1\<close> is the one integrator step taken at time \<open>obsTime[j]\<close> from the
  state at observation \<open>j\<close>, and the SSR vector has one entry per member.
\<close>

lemma interceptCostRK4_run:
  assumes pars: "columns4 Pars = Inr (a, b, c, d)"
    and obs: "columns4 Obs = Inr (obsTime, obsStor, obsPrec, obsEvap)"
    and nonempty: "obsTime \<noteq> []"
    and steps: "\<forall>t S. length S = length a \<longrightarrow>
       (\<exists>v r. step t S dt (mf_args obsTime obsPrec obsEvap (Arr1 a) (Arr1 b) (Arr1 c) (Arr1 d)) = Inr v
              \<and> row_value (length a) v = Inr r)"
  shows "\<exists>simStor res s.
           interceptCostRK4 step Pars (Obs, dt) =
             Inr (Arr2 (length obsTime) (transpose_rows (length a) simStor), (res, Arr1 s))
         \<and> length simStor = length obsTime
         \<and> simStor ! 0 = replicate (length a) (obsStor ! 0)
         \<and> (\<forall>j. Suc j < length obsTime \<longrightarrow>
               (\<exists>v. step (obsTime ! j) (simStor ! j) dt
                       (mf_args obsTime obsPrec obsEvap (Arr1 a) (Arr1 b) (Arr1 c) (Arr1 d)) = Inr v
                    \<and> row_value (length a) v = Inr (simStor ! Suc j)))
         \<and> length (transpose_rows (length a) simStor) = length a
         \<and> (\<forall>r \<in> set (transpose_rows (length a) simStor).
               length r = length obsTime \<and> r ! 0 = obsStor ! 0)
         \<and> length s = length a"
proof -
  let ?M = "length obsTime" and ?N = "length a"
  let ?mf = "mf_args obsTime obsPrec obsEvap (Arr1 a) (Arr1 b) (Arr1 c) (Arr1 d)"
  let ?init = "(replicate ?M (replicate ?N 0))[0 := replicate ?N (obsStor ! 0)]"
  have stor: "length obsStor = ?M"
    using columns4_lengths [OF obs] by simp
  with nonempty have stor_ne: "obsStor \<noteq> []" by auto
  have ok: "\<exists>v r. step t S dt ?mf = Inr v \<and> row_value ?N v = Inr r" if "length S = ?N" for t S
    using steps that by blast
  have "length ?init = ?M" by simp
  moreover have "\<forall>r \<in> set ?init. length r = ?N"
    using set_update_subset_insert [of "replicate ?M (replicate ?N 0)" 0 "replicate ?N (obsStor ! 0)"]
    by auto
  moreover have "0 + length obsTime = ?M" by simp
  ultimately obtain simStor where
    run: "rk4_loop step ?mf dt ?M ?N (enumerate 0 obsTime) ?init = Inr simStor"
    and len: "length simStor = ?M"
    and keep: "\<forall>i \<le> 0. simStor ! i = ?init ! i"
    and later: "\<forall>j. 0 \<le> j \<and> Suc j < ?M \<longrightarrow>
                 (\<exists>v. step (obsTime ! (j - 0)) (simStor ! j) dt ?mf = Inr v
                       \<and> row_value ?N v = Inr (simStor ! Suc j))"
    using rk4_loop_run [of ?N step dt ?mf ?init ?M 0 obsTime, OF ok] by blast
  have first: "simStor ! 0 = replicate ?N (obsStor ! 0)"
    using keep nonempty by simp
  have ne: "simStor \<noteq> []" using len nonempty by auto
  obtain res s where
    cost: "ssr (Arr2 ?M (transpose_rows ?N simStor)) (Arr1 obsStor) = Inr (Arr2 ?M res, Arr1 s)"
    and s: "length s = length (transpose_rows ?N simStor)"
    using ssr_matrix_vector [OF stor, of "transpose_rows ?N simStor"] by blast
  have "interceptCostRK4 step Pars (Obs, dt) =
          Inr (Arr2 ?M (transpose_rows ?N simStor), (Arr2 ?M res, Arr1 s))"
    using pars obs stor_ne run cost by (simp add: interceptCostRK4_def Let_def)
  moreover have "\<forall>j. Suc j < ?M \<longrightarrow>
               (\<exists>v. step (obsTime ! j) (simStor ! j) dt ?mf = Inr v
                    \<and> row_value ?N v = Inr (simStor ! Suc j))"
    using later by simp
  moreover have "\<forall>r \<in> set (transpose_rows ?N simStor). length r = ?M \<and> r ! 0 = obsStor ! 0"
    using transpose_rows_shape(2) [of ?N simStor] transpose_rows_first [OF ne first] len by simp
  ultimately show ?thesis
    using len first s transpose_rows_shape(1) [of ?N simStor] by auto
qed

text \<open>
  C4 does not hold of the code for an ensemble of two or more members. The driver hands
  the integrator the state row and the parameter columns as vectors, and the dynamics raise
  ValueError on every state of two or more members (\<open>interceptionModel_vector_raises\<close>, the
  defect of C2). With an integrator whose first stage evaluates the dynamics, the driver on
  two or more members and two or more observation times raises ValueError at its first
  step: no trajectory matrix and no SSR vector is returned. A run whose steps all succeed,
  as with a single member, has the invariants of the claim (\<open>interceptCostRK4_run\<close>).
\<close>

theorem interceptCostRK4_raises_for_ensembles:
  assumes stage: "propagates_first_stage step"
    and pars: "columns4 Pars = Inr (a, b, c, d)"
    and obs: "columns4 Obs = Inr (obsTime, obsStor, obsPrec, obsEvap)"
    and members: "2 \<le> length a"
    and times: "2 \<le> length obsTime"
  shows "interceptCostRK4 step Pars (Obs, dt) = Inl ValueError"
proof -
  let ?M = "length obsTime" and ?N = "length a"
  let ?mf = "mf_args obsTime obsPrec obsEvap (Arr1 a) (Arr1 b) (Arr1 c) (Arr1 d)"
  let ?s0 = "replicate ?N (obsStor ! 0)"
  let ?init = "(replicate ?M (replicate ?N 0))[0 := ?s0]"
  obtain t0 rest where T: "obsTime = t0 # rest"
    using times by (cases obsTime) auto
  have len: "length obsStor = ?M" "length obsPrec = ?M" "length obsEvap = ?M"
    using columns4_lengths [OF obs] by simp_all
  have width: "length c = ?N"
    using columns4_lengths [OF pars] by simp
  have stor_ne: "obsStor \<noteq> []" using len(1) T by auto
  have "interceptionModel t0 (Arr1 ?s0) obsTime obsPrec obsEvap (Arr1 a) (Arr1 b) (Arr1 c) (Arr1 d)
          = Inl ValueError"
    using T len width members by (intro interceptionModel_vector_raises) simp_all
  then have "?mf t0 (Arr1 ?s0) = Inl ValueError"
    by (simp add: mf_args_def)
  with stage have "step t0 ?s0 dt ?mf = Inl ValueError"
    by (simp add: propagates_first_stage_def)
  moreover have "?init ! 0 = ?s0" using T by simp
  moreover have "\<not> ?M \<le> Suc 0" using times by simp
  ultimately have "rk4_loop step ?mf dt ?M ?N (enumerate 0 obsTime) ?init = Inl ValueError"
    unfolding T by (simp del: length_greater_0_conv)
  then show ?thesis
    using pars obs stor_ne by (simp add: interceptCostRK4_def Let_def)
qed

theorem interceptCostRK4_raises_for_ensembles_witness:
  "propagates_first_stage
     (\<lambda>t S dt mf. case mf t (Arr1 S) of Inl e \<Rightarrow> Inl e | Inr k \<Rightarrow> Inr (Arr1 S))
   \<and> columns4 (Arr2 4 [[1, 0, 1, 1], [1, 0, 1, 1 :: real]]) = Inr ([1, 1], [0, 0], [1, 1], [1, 1])
   \<and> columns4 (Arr2 4 [[0, 5, 2, 1], [1, 6, 2, 1], [2, 7, 2, 1 :: real]])
        = Inr ([0, 1, 2], [5, 6, 7], [2, 2, 2], [1, 1, 1])
   \<and> interceptCostRK4
        (\<lambda>t S dt mf. case mf t (Arr1 S) of Inl e \<Rightarrow> Inl e | Inr k \<Rightarrow> Inr (Arr1 S))
        (Arr2 4 [[1, 0, 1, 1], [1, 0, 1, 1]])
        (Arr2 4 [[0, 5, 2, 1], [1, 6, 2, 1], [2, 7, 2, 1]], 1)
      = Inl ValueError"
proof -
  let ?step = "\<lambda>(t :: real) (S :: real list) (dt :: real) (mf :: dynamics).
                 (case mf t (Arr1 S) of Inl e \<Rightarrow> Inl e | Inr k \<Rightarrow> Inr (Arr1 S))
                 :: py_error + real ndarray"
  have stage: "propagates_first_stage ?step"
    by (simp add: propagates_first_stage_def)
  have pars: "columns4 (Arr2 4 [[1, 0, 1, 1], [1, 0, 1, 1 :: real]]) = Inr ([1, 1], [0, 0], [1, 1], [1, 1])"
    by (simp add: columns4_def)
  have obs: "columns4 (Arr2 4 [[0, 5, 2, 1], [1, 6, 2, 1], [2, 7, 2, 1 :: real]])
        = Inr ([0, 1, 2], [5, 6, 7], [2, 2, 2], [1, 1, 1])"
    by (simp add: columns4_def)
  have "interceptCostRK4 ?step (Arr2 4 [[1, 0, 1, 1], [1, 0, 1, 1]])
        (Arr2 4 [[0, 5, 2, 1], [1, 6, 2, 1], [2, 7, 2, 1]], 1) = Inl ValueError"
    using interceptCostRK4_raises_for_ensembles [where step = ?step and dt = 1, OF stage pars obs]
    by simp
  with stage pars obs show ?thesis by blast
qed

section \<open>Properties of the adaptive driver\<close>

lemma cf_for_length:
  "cf_for body idx obsSims sims = Some (Inr (obsSims', sims')) \<Longrightarrow>
   length sims' = length sims + length idx"
proof (induction idx arbitrary: obsSims sims)
  case Nil
  then show ?case by simp
next
  case (Cons i idx)
  then show ?case
    by (auto split: option.splits sum.splits prod.splits)
qed

lemma interceptionModel_CF_trajectories:
  assumes "interceptionModel_CF rkf45 (Arr2 m rows) Args = Some (Inr (sims, csts))"
  shows "length sims = length rows - 1"
proof -
  obtain Obs dt0 where Args: "Args = (Obs, dt0)" by (cases Args)
  from assms obtain body obsSims obsSims' where
    "cf_for body [0..<nat (int (length rows) - 1)] obsSims [] = Some (Inr (obsSims', sims))"
    unfolding Args interceptionModel_CF_def
    by (auto simp: columns4_def Let_def split: sum.splits option.splits prod.splits if_splits)
  from cf_for_length [OF this] show ?thesis by (simp add: nat_diff_distrib')
qed

text \<open>
  C1 does not hold of the code: the loop runs over \<open>range(A.size-1)\<close>. With one member,
  whatever the integrator, no member is integrated: the list of trajectories is empty and
  the one cost, 110, is the SSR of the zero-initialised column of \<open>obsSims\<close>. With two
  members and an integrator that advances the time by \<open>dt\<close>, one trajectory is returned
  and the second cost is again that of the zero column. The lemma
  \<open>interceptionModel_CF_trajectories\<close> gives the count for every ensemble.
\<close>

theorem interceptionModel_CF_skips_last_member:
  "interceptionModel_CF rkf45 (Arr2 4 [[1, 0, 1, 1]])
      (Arr2 4 [[0, 5, 2, 1], [1, 6, 2, 1], [2, 7, 2, 1]], 1)
    = Some (Inr ([], Arr2 3 [[- 5, - 6, - 7]], Arr1 [110]))
   \<and> interceptionModel_CF (\<lambda>t s dt mf. Inr (dt, t + dt, s + 1)) (Arr2 4 [[1, 0, 1, 1], [1, 0, 1, 1]])
      (Arr2 4 [[0, 5, 2, 1], [1, 6, 2, 1], [2, 7, 2, 1]], 1)
    = Some (Inr ([[(0, 5), (1, 6), (2, 7), (3, 8)]],
                 Arr2 3 [[0, 0, 0], [- 5, - 6, - 7]], Arr1 [0, 110]))"
proof
  show "interceptionModel_CF rkf45 (Arr2 4 [[1, 0, 1, 1]])
      (Arr2 4 [[0, 5, 2, 1], [1, 6, 2, 1], [2, 7, 2, 1]], 1)
    = Some (Inr ([], Arr2 3 [[- 5, - 6, - 7]], Arr1 [110]))"
    by (simp add: interceptionModel_CF_def columns4_def ssr_def bdim_def brow_def numeral_3_eq_3)
next
  have loop: "adaptive_loop (\<lambda>t s dt. Inr (dt, t + dt, s + 1)) 2 (1, 0, 5) [(0, 5)]
      = Some (Inr [(0, 5), (1, 6), (2, 7), (3, 8)])"
    by (simp add: adaptive_loop.simps)
  show "interceptionModel_CF (\<lambda>t s dt mf. Inr (dt, t + dt, s + 1)) (Arr2 4 [[1, 0, 1, 1], [1, 0, 1, 1]])
      (Arr2 4 [[0, 5, 2, 1], [1, 6, 2, 1], [2, 7, 2, 1]], 1)
    = Some (Inr ([[(0, 5), (1, 6), (2, 7), (3, 8)]],
                 Arr2 3 [[0, 0, 0], [- 5, - 6, - 7]], Arr1 [0, 110]))"
    by (simp add: interceptionModel_CF_def columns4_def cf_member_def loop np_interp_vec_def
        interp_at_def ssr_def bdim_def brow_def numeral_3_eq_3 numeral_2_eq_2)
qed

end
